theory Spec2Isabelle
  imports Complex_Main "HOL-Library.Sublist"
begin

section \<open>JavaScript values used by \<^verbatim>\<open>index.mjs\<close>\<close>

text \<open>
  Strings are lists of 8-bit characters, read as the code units U+0000 to U+00FF.
  A thrown \<^verbatim>\<open>Error\<close> is its message: the script only ever reads \<^verbatim>\<open>error.message\<close>.
\<close>

datatype error = Error string

fun message :: "error \<Rightarrow> string" where
  "message (Error m) = m"

subsection \<open>Strings\<close>

text \<open>White space and line terminators of ECMAScript among the code units below 256.\<close>

definition is_white_space :: "char \<Rightarrow> bool" where
  "is_white_space c = ((of_char c :: nat) \<in> {9, 10, 11, 12, 13, 32, 160})"

text \<open>\<^verbatim>\<open>String.prototype.trim\<close>.\<close>

definition trim :: "string \<Rightarrow> string" where
  "trim s = rev (dropWhile is_white_space (rev (dropWhile is_white_space s)))"

text \<open>\<^verbatim>\<open>s.split(" ")\<close>: the pieces between single spaces; never the empty list.\<close>

fun split_space :: "string \<Rightarrow> string list" where
  "split_space [] = [[]]"
| "split_space (c # cs) =
     (if c = CHR '' '' then [] # split_space cs
      else (case split_space cs of [] \<Rightarrow> [[c]] | t # ts \<Rightarrow> (c # t) # ts))"

text \<open>
  Case folding of one code unit as the \<^verbatim>\<open>i\<close> flag and \<^verbatim>\<open>toLowerCase\<close> see it on
  ASCII: a code unit of 128 or more is never folded onto an ASCII letter.
\<close>

definition to_lower :: "char \<Rightarrow> char" where
  "to_lower c = (let n = (of_char c :: nat) in if 65 \<le> n \<and> n \<le> 90 then char_of (n + 32) else c)"

subsection \<open>Digits and \<^verbatim>\<open>parseInt\<close>\<close>

definition digit_of :: "char \<Rightarrow> nat option" where
  "digit_of c = (let n = (of_char c :: nat) in
     if 48 \<le> n \<and> n \<le> 57 then Some (n - 48)
     else if 97 \<le> n \<and> n \<le> 122 then Some (n - 87)
     else if 65 \<le> n \<and> n \<le> 90 then Some (n - 55)
     else None)"

definition radix_digit :: "nat \<Rightarrow> char \<Rightarrow> nat option" where
  "radix_digit R c = (case digit_of c of None \<Rightarrow> None | Some d \<Rightarrow> if d < R then Some d else None)"

definition is_radix_digit :: "nat \<Rightarrow> char \<Rightarrow> bool" where
  "is_radix_digit R c = (radix_digit R c \<noteq> None)"

definition digits_value :: "nat \<Rightarrow> string \<Rightarrow> nat" where
  "digits_value R Z = foldl (\<lambda>a c. a * R + the (radix_digit R c)) 0 Z"

text \<open>
  A Number: \<^verbatim>\<open>NaN\<close>, the two infinities, or a finite value, held exactly as a rational.
\<close>

datatype number = NaN | Infinity | NegInfinity | Fin rat

text \<open>
  \<^verbatim>\<open>parseInt(str)\<close> with no radix: leading white space is dropped, one sign is read, a
  \<^verbatim>\<open>0x\<close> prefix switches to radix 16, and the longest run of digits is converted;
  no digit at all gives \<^verbatim>\<open>NaN\<close>. The integer is kept exactly; the script only clamps it
  into 0..100 or hands it to the image library.
\<close>

definition parseInt :: "string \<Rightarrow> number" where
  "parseInt str =
    (let S = dropWhile is_white_space str;
         sign = (if S \<noteq> [] \<and> hd S = CHR ''-'' then - 1 else 1);
         S1 = (if S \<noteq> [] \<and> (hd S = CHR ''+'' \<or> hd S = CHR ''-'') then tl S else S);
         R = (if take 2 S1 = ''0x'' \<or> take 2 S1 = ''0X'' then 16 else 10);
         S2 = (if R = 16 then drop 2 S1 else S1);
         Z = takeWhile (is_radix_digit R) S2
     in if Z = [] then NaN else Fin (of_int (sign * int (digits_value R Z))))"

text \<open>\<^verbatim>\<open>Math.max(0, x)\<close> and \<^verbatim>\<open>Math.min(100, x)\<close>: \<^verbatim>\<open>NaN\<close> goes through both.\<close>

fun math_max0 :: "number \<Rightarrow> number" where
  "math_max0 NaN = NaN"
| "math_max0 Infinity = Infinity"
| "math_max0 NegInfinity = Fin 0"
| "math_max0 (Fin x) = Fin (max 0 x)"

fun math_min100 :: "number \<Rightarrow> number" where
  "math_min100 NaN = NaN"
| "math_min100 Infinity = Fin 100"
| "math_min100 NegInfinity = NegInfinity"
| "math_min100 (Fin x) = Fin (min 100 x)"

subsection \<open>\<^verbatim>\<open>isNaN\<close> of a string\<close>

text \<open>
  \<^verbatim>\<open>isNaN(s)\<close> converts the string with \<^verbatim>\<open>Number\<close>: white space is trimmed, the
  empty string is 0, and what remains must be a \<^verbatim>\<open>StrNumericLiteral\<close>: a signed
  decimal literal (digits, an optional fraction, an optional exponent, or
  \<^verbatim>\<open>Infinity\<close>) or an unsigned binary, octal or hexadecimal integer literal.
\<close>

definition all_digits :: "nat \<Rightarrow> string \<Rightarrow> bool" where
  "all_digits R s = (s \<noteq> [] \<and> list_all (is_radix_digit R) s)"

definition strip_sign :: "string \<Rightarrow> string" where
  "strip_sign s = (if s \<noteq> [] \<and> (hd s = CHR ''+'' \<or> hd s = CHR ''-'') then tl s else s)"

definition is_exponent_part :: "string \<Rightarrow> bool" where
  "is_exponent_part s = (case s of [] \<Rightarrow> False
     | c # r \<Rightarrow> (c = CHR ''e'' \<or> c = CHR ''E'') \<and> all_digits 10 (strip_sign r))"

definition is_unsigned_decimal :: "string \<Rightarrow> bool" where
  "is_unsigned_decimal s =
     (s = ''Infinity'' \<or>
      (let ip = takeWhile (is_radix_digit 10) s; r = dropWhile (is_radix_digit 10) s in
       case r of
         [] \<Rightarrow> ip \<noteq> []
       | c # r' \<Rightarrow>
           if c = CHR ''.'' then
             (let fp = takeWhile (is_radix_digit 10) r'; e = dropWhile (is_radix_digit 10) r'
              in (ip \<noteq> [] \<or> fp \<noteq> []) \<and> (e = [] \<or> is_exponent_part e))
           else ip \<noteq> [] \<and> is_exponent_part r))"

definition is_non_decimal :: "string \<Rightarrow> bool" where
  "is_non_decimal s =
     ((take 2 s = ''0x'' \<or> take 2 s = ''0X'') \<and> all_digits 16 (drop 2 s) \<or>
      (take 2 s = ''0o'' \<or> take 2 s = ''0O'') \<and> all_digits 8 (drop 2 s) \<or>
      (take 2 s = ''0b'' \<or> take 2 s = ''0B'') \<and> all_digits 2 (drop 2 s))"

definition isNaN :: "string \<Rightarrow> bool" where
  "isNaN s = (let t = trim s in
     \<not> (t = [] \<or> is_non_decimal t \<or> is_unsigned_decimal (strip_sign t)))"

subsection \<open>Numbers as text\<close>

text \<open>
  \<^verbatim>\<open>String(n)\<close> of an integer-valued Number below \<open>10\<^sup>2\<^sup>1\<close> in magnitude: its
  decimal digits, with a minus sign when negative.
\<close>

definition digit_char :: "nat \<Rightarrow> char" where
  "digit_char d = ''0123456789'' ! d"

fun show_nat :: "nat \<Rightarrow> string" where
  "show_nat n = (if n < 10 then [digit_char n] else show_nat (n div 10) @ [digit_char (n mod 10)])"

declare show_nat.simps [simp del]

definition show_int :: "int \<Rightarrow> string" where
  "show_int i = (if i < 0 then CHR ''-'' # show_nat (nat (- i)) else show_nat (nat i))"

subsection \<open>Double-precision arithmetic\<close>

text \<open>
  Every arithmetic result of JavaScript is rounded to the nearest binary64 value, ties to
  the even significand. \<open>binary64\<close> does this rounding on the exact rational result, with
  a 53-bit significand; the exponent range is left out, since the quotients and
  percentages of byte counts formed here stay between \<open>2\<^sup>-\<^sup>5\<^sup>3\<close> and \<open>2\<^sup>6\<^sup>0\<close> in magnitude.
  Byte counts themselves are integers below \<open>2\<^sup>5\<^sup>3\<close>, whose sums and differences are
  exact, so they are kept as \<open>int\<close>.
\<close>

fun bit_length :: "nat \<Rightarrow> nat" where
  "bit_length n = (if n = 0 then 0 else Suc (bit_length (n div 2)))"

declare bit_length.simps [simp del]

text \<open>The binary exponent of a positive rational: \<open>2 powi ilog2 x \<le> x < 2 powi (ilog2 x + 1)\<close>.\<close>

definition ilog2 :: "rat \<Rightarrow> int" where
  "ilog2 x = (if 1 \<le> x then int (bit_length (nat \<lfloor>x\<rfloor>)) - 1
              else - int (bit_length (nat (\<lceil>1 / x\<rceil> - 1))))"

definition round_half_even :: "rat \<Rightarrow> int" where
  "round_half_even t = (let f = \<lfloor>t\<rfloor>; r = t - of_int f in
     if r < 1 / 2 then f else if 1 / 2 < r then f + 1 else if even f then f else f + 1)"

definition binary64 :: "rat \<Rightarrow> rat" where
  "binary64 x = (if x = 0 then 0 else
     let u = 2 powi (ilog2 \<bar>x\<bar> - 52) in of_int (round_half_even (x / u)) * u)"

text \<open>\<^verbatim>\<open>a / b\<close> on two integer-valued Numbers.\<close>

definition js_divide :: "int \<Rightarrow> int \<Rightarrow> number" where
  "js_divide a b =
     (if b = 0 then (if a = 0 then NaN else if 0 < a then Infinity else NegInfinity)
      else Fin (binary64 (of_int a / of_int b)))"

text \<open>\<^verbatim>\<open>x * 100\<close>.\<close>

definition times100 :: "number \<Rightarrow> number" where
  "times100 x = (case x of Fin q \<Rightarrow> Fin (binary64 (q * 100)) | other \<Rightarrow> other)"

text \<open>
  \<^verbatim>\<open>x.toFixed(2)\<close>: for a finite \<open>x\<close> the integer \<open>n\<close> with \<open>n / 100\<close> nearest to the
  exact value of \<open>\<bar>x\<bar>\<close>, the larger one at a tie, printed with two fraction digits and
  the sign of \<open>x\<close>. (From \<open>10\<^sup>2\<^sup>1\<close> on JavaScript switches to exponent notation; no
  value formed from byte counts gets there.)
\<close>

definition fixed2 :: "nat \<Rightarrow> string" where
  "fixed2 n = show_nat (n div 100) @ ''.'' @ [digit_char (n mod 100 div 10), digit_char (n mod 10)]"

definition toFixed2 :: "number \<Rightarrow> string" where
  "toFixed2 x = (case x of
       NaN \<Rightarrow> ''NaN''
     | Infinity \<Rightarrow> ''Infinity''
     | NegInfinity \<Rightarrow> ''-Infinity''
     | Fin q \<Rightarrow> (if q < 0 then ''-'' else []) @ fixed2 (nat \<lfloor>\<bar>q\<bar> * 100 + 1 / 2\<rfloor>))"

section \<open>The helpers of \<^verbatim>\<open>index.mjs\<close>\<close>

text \<open>
  \<^verbatim>\<open>cleanPath\<close>: the replace removes one quote character at the start and one at the end
  of what is left, then the result is trimmed.
\<close>

definition is_quote :: "char \<Rightarrow> bool" where
  "is_quote c = (c = CHR 0x27 \<or> c = CHR 0x22)"

definition cleanPath :: "string \<Rightarrow> string" where
  "cleanPath inputPath =
     (let s1 = (if inputPath \<noteq> [] \<and> is_quote (hd inputPath) then tl inputPath else inputPath);
          s2 = (if s1 \<noteq> [] \<and> is_quote (last s1) then butlast s1 else s1)
      in trim s2)"

definition formatFileSize :: "int \<Rightarrow> string" where
  "formatFileSize bytes =
     (if bytes < 1024 then show_int bytes @ '' B''
      else if bytes < 1024 * 1024 then toFixed2 (js_divide bytes 1024) @ '' KB''
      else toFixed2 (js_divide bytes (1024 * 1024)) @ '' MB'')"

text \<open>\<^verbatim>\<open>((a / b) * 100).toFixed(2)\<close>, as lines 73 and 227 compute a percentage.\<close>

definition percent_fixed2 :: "int \<Rightarrow> int \<Rightarrow> string" where
  "percent_fixed2 a b = toFixed2 (times100 (js_divide a b))"

section \<open>The prompts of \<^verbatim>\<open>main\<close>\<close>

text \<open>Line 119: the format from the answer to prompt 2.\<close>

definition choose_format :: "string \<Rightarrow> string" where
  "choose_format formatChoice =
     (if formatChoice \<noteq> [] then (if formatChoice = ''1'' then ''webp'' else ''png'') else ''webp'')"

text \<open>Line 122: the quality from the answer to prompt 3.\<close>

definition choose_quality :: "string \<Rightarrow> number" where
  "choose_quality qualityInput =
     (if qualityInput \<noteq> [] then math_min100 (math_max0 (parseInt qualityInput)) else Fin 80)"

text \<open>Line 125: \<^verbatim>\<open>cropResponse.toLowerCase() === "y"\<close>.\<close>

definition choose_crop :: "string \<Rightarrow> bool" where
  "choose_crop cropResponse = (map to_lower cropResponse = ''y'')"

text \<open>Lines 130 to 133: the answer to the dimensions prompt, split and checked.\<close>

definition read_dimensions :: "string \<Rightarrow> error + string list" where
  "read_dimensions dimensions =
     (let cropDimensions = split_space dimensions in
      if length cropDimensions \<noteq> 2 \<or> isNaN (cropDimensions ! 0) \<or> isNaN (cropDimensions ! 1)
      then Inl (Error ''Invalid dimensions! Please provide valid numbers.'')
      else Inr cropDimensions)"

text \<open>
  Lines 54 and 55: the two numbers \<^verbatim>\<open>processImage\<close> hands to \<^verbatim>\<open>resize\<close>. A missing
  array element is \<^verbatim>\<open>undefined\<close>, which \<^verbatim>\<open>parseInt\<close> reads as \<^verbatim>\<open>NaN\<close>.
\<close>

definition parseInt_at :: "string list \<Rightarrow> nat \<Rightarrow> number" where
  "parseInt_at xs i = (if i < length xs then parseInt (xs ! i) else NaN)"

definition resize_box :: "string list \<Rightarrow> number \<times> number" where
  "resize_box cropDimensions = (parseInt_at cropDimensions 0, parseInt_at cropDimensions 1)"

section \<open>The world the script runs in\<close>

subsection \<open>File system, console and terminal\<close>

text \<open>
  A path names a file with its contents or a directory with the entry names that
  \<^verbatim>\<open>readdirSync\<close> returns for it. Permissions, links and devices are left out.
\<close>

datatype node = File string | Directory "string list"

text \<open>What the script lets the user see, in order.\<close>

datatype event =
    ConsoleLog string
  | ConsoleError string
  | Prompt string
  | SpinnerStart string
  | SpinnerText string
  | SpinnerInfo string
  | SpinnerSucceed string
  | SpinnerFail string
  | HttpGet string
  | RlClose

record world =
  fs :: "string \<rightharpoonup> node"
  asked :: nat
  out :: "event list"

subsection \<open>The libraries\<close>

text \<open>
  The script imports \<^verbatim>\<open>node-fetch\<close>, \<^verbatim>\<open>sharp\<close>, \<^verbatim>\<open>path\<close> and \<^verbatim>\<open>url\<close>; none of them
  is part of the repository, so what they compute is a parameter of the model.
\<close>

text \<open>\<^verbatim>\<open>fetch(url)\<close> rejects, or resolves to a response with \<^verbatim>\<open>ok\<close>, \<^verbatim>\<open>statusText\<close> and a body.\<close>

datatype fetch_result = Rejected error | Response bool string string

text \<open>What \<^verbatim>\<open>sharp(p).metadata()\<close> resolves to, as far as the script reads it.\<close>

record metadata =
  meta_format :: string
  meta_width :: nat
  meta_height :: nat

text \<open>
  The operations queued on a \<^verbatim>\<open>sharp\<close> instance before \<^verbatim>\<open>toFile\<close>: the arguments of
  \<^verbatim>\<open>resize\<close> (always with cover fit, centred) and the encoder with its quality.
\<close>

record pipeline =
  resize :: "(number \<times> number) option"
  encoder :: "(string \<times> number) option"

record env =
  script_dirname :: string
  answers :: "nat \<Rightarrow> string"
  URL_pathname :: "string \<Rightarrow> string option"
  path_basename :: "string \<Rightarrow> string"
  path_basename_ext :: "string \<Rightarrow> string \<Rightarrow> string"
  path_extname :: "string \<Rightarrow> string"
  path_dirname :: "string \<Rightarrow> string"
  path_join :: "string \<Rightarrow> string \<Rightarrow> string"
  fetch :: "string \<Rightarrow> fetch_result"
  sharp_metadata :: "(string \<rightharpoonup> node) \<Rightarrow> string \<Rightarrow> error + metadata"
  sharp_encode :: "(string \<rightharpoonup> node) \<Rightarrow> string \<Rightarrow> pipeline \<Rightarrow> string \<Rightarrow> error + string"
  directory_size :: int

text \<open>
  \<open>script_dirname\<close> is \<^verbatim>\<open>__dirname\<close>; \<open>answers E n\<close> is the line the user types at the
  \<open>n\<close>-th prompt; \<open>URL_pathname E s\<close> is \<^verbatim>\<open>new URL(s).pathname\<close>, or \<open>None\<close> when the
  constructor throws; \<open>sharp_encode E files src ops dst\<close> is the encoded image that
  \<^verbatim>\<open>toFile(dst)\<close> writes, or the error of the first \<^verbatim>\<open>sharp\<close> call that throws;
  \<open>directory_size\<close> is the \<^verbatim>\<open>size\<close> that \<^verbatim>\<open>statSync\<close> reports for a directory.
\<close>

subsection \<open>Effects\<close>

text \<open>A step either throws or returns, and leaves a world behind in both cases.\<close>

type_synonym 'a io = "world \<Rightarrow> (error + 'a) \<times> world"

definition returnIO :: "'a \<Rightarrow> 'a io" where
  "returnIO a w = (Inr a, w)"

definition throwIO :: "error \<Rightarrow> 'a io" where
  "throwIO e w = (Inl e, w)"

definition bindIO :: "'a io \<Rightarrow> ('a \<Rightarrow> 'b io) \<Rightarrow> 'b io" where
  "bindIO m f w = (case m w of (Inl e, w') \<Rightarrow> (Inl e, w') | (Inr a, w') \<Rightarrow> f a w')"

definition thenIO :: "unit io \<Rightarrow> 'b io \<Rightarrow> 'b io" where
  "thenIO m k = bindIO m (\<lambda>_. k)"

definition put :: "event \<Rightarrow> world \<Rightarrow> world" where
  "put e w = w\<lparr>out := out w @ [e]\<rparr>"

definition emit :: "event \<Rightarrow> unit io" where
  "emit e w = (Inr (), put e w)"

text \<open>\<^verbatim>\<open>question(query)\<close>: the query is shown and the user's next line is the answer.\<close>

definition ask :: "env \<Rightarrow> string \<Rightarrow> world \<Rightarrow> string \<times> world" where
  "ask E query w = (answers E (asked w), (put (Prompt query) w)\<lparr>asked := Suc (asked w)\<rparr>)"

definition question :: "env \<Rightarrow> string \<Rightarrow> string io" where
  "question E query w = (case ask E query w of (answer, w') \<Rightarrow> (Inr answer, w'))"

subsection \<open>\<^verbatim>\<open>fs\<close>\<close>

definition existsSync :: "world \<Rightarrow> string \<Rightarrow> bool" where
  "existsSync w p = (fs w p \<noteq> None)"

definition ENOENT :: "string \<Rightarrow> string \<Rightarrow> error" where
  "ENOENT syscall p = Error (''ENOENT: no such file or directory, '' @ syscall @ '' '' @ [CHR 0x27] @ p @ [CHR 0x27])"

definition EEXIST :: "string \<Rightarrow> string \<Rightarrow> error" where
  "EEXIST syscall p = Error (''EEXIST: file already exists, '' @ syscall @ '' '' @ [CHR 0x27] @ p @ [CHR 0x27])"

definition EISDIR :: "string \<Rightarrow> string \<Rightarrow> error" where
  "EISDIR syscall p = Error (''EISDIR: illegal operation on a directory, '' @ syscall @ '' '' @ [CHR 0x27] @ p @ [CHR 0x27])"

text \<open>\<^verbatim>\<open>statSync(p)\<close>, read through \<^verbatim>\<open>isDirectory()\<close> and \<^verbatim>\<open>size\<close>.\<close>

definition statSync :: "world \<Rightarrow> string \<Rightarrow> error + node" where
  "statSync w p = (case fs w p of None \<Rightarrow> Inl (ENOENT ''stat'' p) | Some n \<Rightarrow> Inr n)"

fun isDirectory :: "node \<Rightarrow> bool" where
  "isDirectory (Directory es) = True"
| "isDirectory (File c) = False"

fun size_of :: "env \<Rightarrow> node \<Rightarrow> int" where
  "size_of E (File c) = int (length c)"
| "size_of E (Directory es) = directory_size E"

definition readdirSync :: "world \<Rightarrow> string \<Rightarrow> error + string list" where
  "readdirSync w p = (case fs w p of
       None \<Rightarrow> Inl (ENOENT ''scandir'' p)
     | Some (File c) \<Rightarrow> Inl (Error (''ENOTDIR: not a directory, scandir '' @ [CHR 0x27] @ p @ [CHR 0x27]))
     | Some (Directory es) \<Rightarrow> Inr es)"

text \<open>A new entry also shows in the listing of its parent directory.\<close>

definition add_entry :: "env \<Rightarrow> string \<Rightarrow> node \<Rightarrow> string list \<Rightarrow> world \<Rightarrow> world" where
  "add_entry E p n es w =
     (let name = path_basename E p in
      w\<lparr>fs := (fs w)(path_dirname E p \<mapsto> Directory (if name \<in> set es then es else es @ [name]),
                       p \<mapsto> n)\<rparr>)"

definition mkdirSync :: "env \<Rightarrow> string \<Rightarrow> unit io" where
  "mkdirSync E p w =
     (if fs w p \<noteq> None then (Inl (EEXIST ''mkdir'' p), w)
      else (case fs w (path_dirname E p) of
              Some (Directory es) \<Rightarrow> (Inr (), add_entry E p (Directory []) es w)
            | _ \<Rightarrow> (Inl (ENOENT ''mkdir'' p), w)))"

definition writeFileSync :: "env \<Rightarrow> string \<Rightarrow> string \<Rightarrow> unit io" where
  "writeFileSync E p content w =
     (case fs w p of
        Some (Directory es) \<Rightarrow> (Inl (EISDIR ''open'' p), w)
      | _ \<Rightarrow> (case fs w (path_dirname E p) of
                Some (Directory es) \<Rightarrow> (Inr (), add_entry E p (File content) es w)
              | _ \<Rightarrow> (Inl (ENOENT ''open'' p), w)))"

section \<open>\<^verbatim>\<open>downloadImage\<close>, \<^verbatim>\<open>processImage\<close> and \<^verbatim>\<open>isURL\<close>\<close>

text \<open>Line 17.\<close>

definition downloadDir :: "env \<Rightarrow> string" where
  "downloadDir E = path_join E (script_dirname E) ''downloads''"

definition downloadImage :: "env \<Rightarrow> string \<Rightarrow> string \<Rightarrow> unit io" where
  "downloadImage E url outputPath =
     thenIO (emit (HttpGet url))
       (case fetch E url of
          Rejected err \<Rightarrow> throwIO err
        | Response ok statusText body \<Rightarrow>
            if \<not> ok then throwIO (Error (''Failed to download image: '' @ statusText))
            else writeFileSync E outputPath body)"

text \<open>One element of \<^verbatim>\<open>processedStats\<close>.\<close>

record stats =
  inputPath :: string
  outputPath :: string
  originalSize :: int
  optimizedSize :: int
  originalFormat :: string
  optimizedFormat :: string
  originalDimensions :: string
  optimizedDimensions :: string
  savings :: string

text \<open>The four choices of the prompts, which \<^verbatim>\<open>main\<close> passes to every \<^verbatim>\<open>processImage\<close> call.\<close>

record options =
  format :: string
  quality :: number
  shouldCrop :: bool
  cropDimensions :: "string list option"

definition dimensions_text :: "metadata \<Rightarrow> string" where
  "dimensions_text m = show_nat (meta_width m) @ ''x'' @ show_nat (meta_height m)"

text \<open>The \<^verbatim>\<open>try\<close> block of \<^verbatim>\<open>processImage\<close>, lines 41 to 88.\<close>

definition processImage_try :: "env \<Rightarrow> string \<Rightarrow> options \<Rightarrow> stats io" where
  "processImage_try E src opts =
     (let fileName = path_basename_ext E src (path_extname E src);
          outputDir = path_join E (path_dirname E src) ''optimized''
      in
      thenIO (emit (SpinnerText (''Processing '' @ fileName @ ''...'')))
     (thenIO (\<lambda>w. if \<not> existsSync w outputDir then mkdirSync E outputDir w else (Inr (), w))
     (bindIO (\<lambda>w. (sharp_metadata E (fs w) src, w)) (\<lambda>original.
      let imageProcess = \<lparr>
            resize = (case cropDimensions opts of
                        Some dims \<Rightarrow> if shouldCrop opts then Some (resize_box dims) else None
                      | None \<Rightarrow> None),
            encoder = (if format opts = ''webp'' \<or> format opts = ''png''
                       then Some (format opts, quality opts) else None)\<rparr>;
          dst = path_join E outputDir (fileName @ ''.'' @ format opts)
      in
      thenIO (bindIO (\<lambda>w. (sharp_encode E (fs w) src imageProcess dst, w)) (writeFileSync E dst))
     (bindIO (\<lambda>w. (statSync w src, w)) (\<lambda>inputStats.
      bindIO (\<lambda>w. (statSync w dst, w)) (\<lambda>outputStats.
      bindIO (\<lambda>w. (sharp_metadata E (fs w) dst, w)) (\<lambda>outputMetadata.
      let st = \<lparr>
            inputPath = src,
            outputPath = dst,
            originalSize = size_of E inputStats,
            optimizedSize = size_of E outputStats,
            originalFormat = meta_format original,
            optimizedFormat = format opts,
            originalDimensions = dimensions_text original,
            optimizedDimensions = dimensions_text outputMetadata,
            savings = percent_fixed2 (size_of E inputStats - size_of E outputStats)
                        (size_of E inputStats)\<rparr>
      in
      thenIO (emit (SpinnerSucceed (''Processed: '' @ fileName @ ''.'' @ format opts)))
        (returnIO st)))))))))"

text \<open>The \<^verbatim>\<open>catch\<close> block, lines 89 to 92: the spinner shows the failure and the error goes on.\<close>

definition processImage :: "env \<Rightarrow> string \<Rightarrow> options \<Rightarrow> stats io" where
  "processImage E src opts w =
     (case processImage_try E src opts w of
        (Inl err, w') \<Rightarrow>
          (Inl err, put (SpinnerFail (''Error processing '' @ path_basename E src @ '': '' @ message err)) w')
      | (Inr st, w') \<Rightarrow> (Inr st, w'))"

definition isURL :: "env \<Rightarrow> string \<Rightarrow> bool" where
  "isURL E str = (URL_pathname E str \<noteq> None)"

section \<open>\<^verbatim>\<open>main\<close>\<close>

subsection \<open>Reading the options, lines 111 to 134\<close>

definition read_options :: "env \<Rightarrow> (string list \<times> options) io" where
  "read_options E =
     bindIO (question E ''1. Enter paths to images/image folders (or URLs) separated by space: '')
       (\<lambda>rawInputPaths.
     let inputPaths = map cleanPath (split_space rawInputPaths) in
     thenIO (emit (ConsoleLog (CHR 0x0A # ''2. Choose Image Format:'')))
    (thenIO (emit (ConsoleLog ''1. webp''))
    (thenIO (emit (ConsoleLog ''2. png''))
    (bindIO (question E ''Enter your choice (1 or 2): (Default Webp)'') (\<lambda>formatChoice.
     bindIO (question E (CHR 0x0A # ''3. Enter quality (0-100, default is 80): '')) (\<lambda>qualityInput.
     bindIO (question E (CHR 0x0A # ''4. Do you want to crop the images? (y/n): '')) (\<lambda>cropResponse.
     bindIO (if choose_crop cropResponse
             then bindIO (question E (''Enter width and height separated by space (e.g., ''
                            @ [CHR 0x22] @ ''800 600'' @ [CHR 0x22] @ ''): ''))
                    (\<lambda>dimensions. case read_dimensions dimensions of
                       Inl err \<Rightarrow> throwIO err
                     | Inr dims \<Rightarrow> returnIO (Some dims))
             else returnIO None) (\<lambda>dims.
     returnIO (inputPaths,
       \<lparr>format = choose_format formatChoice,
        quality = choose_quality qualityInput,
        shouldCrop = choose_crop cropResponse,
        cropDimensions = dims\<rparr>)))))))))"

subsection \<open>The running totals\<close>

text \<open>The three variables that \<^verbatim>\<open>main\<close> declares in lines 106 to 108.\<close>

record totals =
  totalSavedBytes :: int
  totalOriginalBytes :: int
  processedStats :: "stats list"

definition initial_totals :: totals where
  "initial_totals = \<lparr>totalSavedBytes = 0, totalOriginalBytes = 0, processedStats = []\<rparr>"

text \<open>Lines 182 to 184, and again 196 to 198.\<close>

definition record_stats :: "stats \<Rightarrow> totals \<Rightarrow> totals" where
  "record_stats fileStats t =
     t\<lparr>processedStats := processedStats t @ [fileStats],
       totalOriginalBytes := totalOriginalBytes t + originalSize fileStats,
       totalSavedBytes := totalSavedBytes t + (originalSize fileStats - optimizedSize fileStats)\<rparr>"

subsection \<open>One input path, lines 137 to 203\<close>

text \<open>\<^verbatim>\<open>/\.(jpg|jpeg|png|gif|webp)$/i.test(file)\<close>.\<close>

definition image_extensions :: "string list" where
  "image_extensions = [''jpg'', ''jpeg'', ''png'', ''gif'', ''webp'']"

definition is_image_file :: "string \<Rightarrow> bool" where
  "is_image_file file =
     list_ex (\<lambda>ext. suffix (CHR ''.'' # ext) (map to_lower file)) image_extensions"

text \<open>The loop over the image files of a directory, lines 170 to 189.\<close>

definition processing_error :: "string \<Rightarrow> error \<Rightarrow> event" where
  "processing_error file err = ConsoleError (''Error processing '' @ file @ '': '' @ message err)"

fun process_files :: "env \<Rightarrow> options \<Rightarrow> string \<Rightarrow> string list \<Rightarrow> totals \<times> world \<Rightarrow> totals \<times> world" where
  "process_files E opts dir [] tw = tw"
| "process_files E opts dir (file # rest) tw =
     (let fullPath = path_join E dir file in
      case processImage E fullPath opts (snd tw) of
        (Inr fileStats, w') \<Rightarrow> process_files E opts dir rest (record_stats fileStats (fst tw), w')
      | (Inl err, w') \<Rightarrow>
          process_files E opts dir rest (fst tw, put (processing_error file err) w'))"

text \<open>
  Lines 139 to 153, for a path that is a URL with the given \<^verbatim>\<open>pathname\<close>. The loop
  variable is assigned the download path before the download, so the step returns its
  new value together with the outcome.
\<close>

definition download_input :: "env \<Rightarrow> string \<Rightarrow> world \<Rightarrow> string \<times> (error + unit) \<times> world" where
  "download_input E pathname w =
     (let urlFilename = path_basename E pathname;
          urlFileExtension = path_extname E urlFilename;
          (outputFileName, w1) = ask E (''Enter output file name for '' @ urlFilename
                                    @ '' (leave blank to use URL file name): '') w;
          joined = path_join E (downloadDir E)
                     (if outputFileName \<noteq> [] then outputFileName else urlFilename);
          inputPath' = (if path_extname E joined = [] then joined @ urlFileExtension else joined);
          w2 = put (ConsoleLog (''Downloading image from URL: '' @ inputPath' @ ''...'')) w1
      in case downloadImage E inputPath' inputPath' w2 of
           (Inl err, w3) \<Rightarrow> (inputPath', Inl err, w3)
         | (Inr u, w3) \<Rightarrow> (inputPath', Inr (), put (ConsoleLog ''Image downloaded successfully.'') w3))"

text \<open>Lines 158 to 200, for a path that is there.\<close>

definition process_path :: "env \<Rightarrow> options \<Rightarrow> string \<Rightarrow> totals \<times> world \<Rightarrow> (error + unit) \<times> totals \<times> world" where
  "process_path E opts p tw =
     (case statSync (snd tw) p of
        Inl err \<Rightarrow> (Inl err, tw)
      | Inr st \<Rightarrow>
          if isDirectory st then
            (case readdirSync (snd tw) p of
               Inl err \<Rightarrow> (Inl err, tw)
             | Inr files \<Rightarrow>
                 let imageFiles = filter is_image_file files in
                 if length imageFiles = 0
                 then (Inl (Error ''No image files found in the directory!''), tw)
                 else
                   let w1 = put (SpinnerInfo (''Found '' @ show_nat (length imageFiles)
                                   @ '' image(s) to process'')) (snd tw);
                       w2 = put (SpinnerStart ''Starting batch processing...'') w1;
                       (t', w3) = process_files E opts p imageFiles (fst tw, w2)
                   in (Inr (), t', put (SpinnerSucceed (''Batch processing complete! Processed ''
                                          @ show_nat (length imageFiles) @ '' files'')) w3))
          else
            (case processImage E p opts (put (SpinnerStart ''Processing image...'') (snd tw)) of
               (Inl err, w') \<Rightarrow> (Inl err, fst tw, w')
             | (Inr fileStats, w') \<Rightarrow> (Inr (), record_stats fileStats (fst tw), w')))"

text \<open>The body of the loop over the input paths, with its \<^verbatim>\<open>catch\<close> in line 202.\<close>

definition path_error :: "string \<Rightarrow> error \<Rightarrow> event" where
  "path_error p err = ConsoleError (''Error with path '' @ p @ '': '' @ message err)"

definition process_input :: "env \<Rightarrow> options \<Rightarrow> string \<Rightarrow> totals \<times> world \<Rightarrow> totals \<times> world" where
  "process_input E opts p tw =
     (let (p', found, w1) =
            (case URL_pathname E p of
               Some pathname \<Rightarrow> download_input E pathname (snd tw)
             | None \<Rightarrow>
                 if \<not> existsSync (snd tw) p
                 then (p, Inl (Error (''Path does not exist: '' @ p)), snd tw)
                 else (p, Inr (), snd tw))
      in case found of
           Inl err \<Rightarrow> (fst tw, put (path_error p' err) w1)
         | Inr u \<Rightarrow>
             (case process_path E opts p' (fst tw, w1) of
                (Inl err, t', w') \<Rightarrow> (t', put (path_error p' err) w')
              | (Inr u', t', w') \<Rightarrow> (t', w')))"

definition process_inputs :: "env \<Rightarrow> options \<Rightarrow> string list \<Rightarrow> totals \<times> world \<Rightarrow> totals \<times> world" where
  "process_inputs E opts inputPaths tw = foldl (\<lambda>s p. process_input E opts p s) tw inputPaths"

subsection \<open>The report, lines 206 to 237\<close>

text \<open>
  The three pictographs of the report are outside the code units of this model; each is
  given by its UTF-8 bytes.
\<close>

definition bar_chart :: string where
  "bar_chart = [CHR 0xF0, CHR 0x9F, CHR 0x93, CHR 0x8A]"

definition chart_increasing :: string where
  "chart_increasing = [CHR 0xF0, CHR 0x9F, CHR 0x93, CHR 0x88]"

definition floppy_disk :: string where
  "floppy_disk = [CHR 0xF0, CHR 0x9F, CHR 0x92, CHR 0xBE]"

definition to_upper :: "char \<Rightarrow> char" where
  "to_upper c = (let n = (of_char c :: nat) in if 97 \<le> n \<and> n \<le> 122 then char_of (n - 32) else c)"

text \<open>The lines of one \<^verbatim>\<open>forEach\<close> step, lines 210 to 223.\<close>

definition stat_lines :: "env \<Rightarrow> nat \<Rightarrow> stats \<Rightarrow> event list" where
  "stat_lines E index stat =
     [ConsoleLog (show_nat (index + 1) @ ''. '' @ path_basename E (inputPath stat)),
      ConsoleLog (''   Before: '' @ formatFileSize (originalSize stat) @ '' (''
                    @ map to_upper (originalFormat stat) @ '' - '' @ originalDimensions stat @ '')''),
      ConsoleLog (''   After:  '' @ formatFileSize (optimizedSize stat) @ '' (''
                    @ map to_upper (optimizedFormat stat) @ '' - '' @ optimizedDimensions stat @ '')''),
      ConsoleLog (''   Reduced: '' @ savings stat @ ''%''),
      ConsoleLog []]"

text \<open>The aggregate block, lines 226 to 234.\<close>

definition total_lines :: "totals \<Rightarrow> event list" where
  "total_lines t =
     (if length (processedStats t) > 0 then
        (let totalSavingsPercent = percent_fixed2 (totalSavedBytes t) (totalOriginalBytes t) in
         [ConsoleLog (chart_increasing @ '' Total Statistics:''),
          ConsoleLog (''   Total Size Before: '' @ formatFileSize (totalOriginalBytes t)),
          ConsoleLog (''   Total Size After:  ''
                        @ formatFileSize (totalOriginalBytes t - totalSavedBytes t)),
          ConsoleLog (''   Total Space Saved: '' @ formatFileSize (totalSavedBytes t)
                        @ '' ('' @ totalSavingsPercent @ ''%)'')])
      else [ConsoleLog ''No images were processed successfully.''])"

definition report :: "env \<Rightarrow> string list \<Rightarrow> totals \<Rightarrow> event list" where
  "report E inputPaths t =
     [ConsoleLog ([CHR 0x0A] @ bar_chart @ '' Optimization Results:'' @ [CHR 0x0A])]
     @ concat (map (\<lambda>(index, stat). stat_lines E index stat) (enumerate 0 (processedStats t)))
     @ total_lines t
     @ [ConsoleLog ([CHR 0x0A] @ floppy_disk @ '' Output Directory: ''
                      @ path_join E (path_dirname E (hd inputPaths)) ''optimized''),
        SpinnerSucceed ''All operations completed successfully!'']"

subsection \<open>The whole run\<close>

definition main_try :: "env \<Rightarrow> unit io" where
  "main_try E =
     bindIO (read_options E) (\<lambda>(inputPaths, opts). \<lambda>w.
       let (t, w') = process_inputs E opts inputPaths (initial_totals, w)
       in (Inr (), w'\<lparr>out := out w' @ report E inputPaths t\<rparr>))"

definition main :: "env \<Rightarrow> world \<Rightarrow> world" where
  "main E w =
     (case main_try E w of
        (Inl err, w') \<Rightarrow> put RlClose (put (SpinnerFail (''Error: '' @ message err)) w')
      | (Inr u, w') \<Rightarrow> put RlClose w')"

text \<open>Lines 19 to 21 run when the module is loaded, before \<^verbatim>\<open>main\<close> is called.\<close>

definition script :: "env \<Rightarrow> world \<Rightarrow> (error + unit) \<times> world" where
  "script E w =
     (case (if \<not> existsSync w (downloadDir E) then mkdirSync E (downloadDir E) w else (Inr (), w)) of
        (Inl err, w') \<Rightarrow> (Inl err, w')
      | (Inr u, w') \<Rightarrow> (Inr (), main E w'))"

section \<open>Notions of the specification\<close>

text \<open>
  The definitions of this section do not come from the script. They say, in the words of
  the specification, what a result is compared with.
\<close>


text \<open>
  Reading a printed size back: the unit after the last space, the number before it, a
  run of decimal digits as a natural number, and a decimal with exactly two fraction
  digits as a number of hundredths.
\<close>

definition unit_part :: "string \<Rightarrow> string" where
  "unit_part s = rev (takeWhile (\<lambda>c. c \<noteq> CHR '' '') (rev s))"

definition number_part :: "string \<Rightarrow> string" where
  "number_part s = rev (drop 1 (dropWhile (\<lambda>c. c \<noteq> CHR '' '') (rev s)))"

definition read_nat :: "string \<Rightarrow> nat option" where
  "read_nat s = (if all_digits 10 s then Some (digits_value 10 s) else None)"

definition read_fixed2 :: "string \<Rightarrow> nat option" where
  "read_fixed2 s =
     (let ip = takeWhile (\<lambda>c. c \<noteq> CHR ''.'') s;
          fp = drop 1 (dropWhile (\<lambda>c. c \<noteq> CHR ''.'') s)
      in if CHR ''.'' \<in> set s \<and> all_digits 10 ip \<and> length fp = 2 \<and> all_digits 10 fp
         then Some (digits_value 10 ip * 100 + digits_value 10 fp) else None)"


definition successes :: "(string \<times> (error + stats)) list \<Rightarrow> stats list" where
  "successes rs = concat (map (\<lambda>(file, r). case r of Inr st \<Rightarrow> [st] | Inl err \<Rightarrow> []) rs)"

definition failures :: "(string \<times> (error + stats)) list \<Rightarrow> (string \<times> error) list" where
  "failures rs = concat (map (\<lambda>(file, r). case r of Inr st \<Rightarrow> [] | Inl err \<Rightarrow> [(file, err)]) rs)"

text \<open>What an observer reads off the output: the error lines, and the files the spinner announced.\<close>

definition console_errors :: "event list \<Rightarrow> string list" where
  "console_errors es = concat (map (\<lambda>e. case e of ConsoleError m \<Rightarrow> [m] | _ \<Rightarrow> []) es)"

definition spinner_texts :: "event list \<Rightarrow> string list" where
  "spinner_texts es = concat (map (\<lambda>e. case e of SpinnerText m \<Rightarrow> [m] | _ \<Rightarrow> []) es)"

definition http_requests :: "event list \<Rightarrow> string list" where
  "http_requests es = concat (map (\<lambda>e. case e of HttpGet u \<Rightarrow> [u] | _ \<Rightarrow> []) es)"

text \<open>A step leaves an observation of the world as it found it.\<close>

definition stable :: "(world \<Rightarrow> 'x) \<Rightarrow> 'a io \<Rightarrow> bool" where
  "stable f m = (\<forall>w. f (snd (m w)) = f w)"

text \<open>The totals agree with the records they were summed from.\<close>

definition totals_consistent :: "totals \<Rightarrow> bool" where
  "totals_consistent t =
     (totalOriginalBytes t = sum_list (map originalSize (processedStats t))
      \<and> totalSavedBytes t
          = sum_list (map (\<lambda>st. originalSize st - optimizedSize st) (processedStats t)))"


section \<open>An example world\<close>

text \<open>
  A small environment on which the theorems are tried: POSIX paths without \<^verbatim>\<open>.\<close>,
  \<^verbatim>\<open>..\<close> or doubled slashes, URLs of the \<^verbatim>\<open>https\<close> scheme, a server that answers
  each of them, and an image library that takes a file starting with \<^verbatim>\<open>IMG\<close> for an
  image of 4 by 3 pixels and encodes it to half its payload.
\<close>

definition posix_basename :: "string \<Rightarrow> string" where
  "posix_basename p = rev (takeWhile (\<lambda>c. c \<noteq> CHR ''/'') (rev p))"

definition posix_extname :: "string \<Rightarrow> string" where
  "posix_extname p =
     (let b = posix_basename p in
      if CHR ''.'' \<in> set (drop 1 b) then CHR ''.'' # rev (takeWhile (\<lambda>c. c \<noteq> CHR ''.'') (rev b))
      else [])"

definition posix_basename_ext :: "string \<Rightarrow> string \<Rightarrow> string" where
  "posix_basename_ext p ext =
     (let b = posix_basename p in
      if ext \<noteq> [] \<and> ext \<noteq> b \<and> suffix ext b then take (length b - length ext) b else b)"

definition posix_dirname :: "string \<Rightarrow> string" where
  "posix_dirname p =
     (let d = rev (drop 1 (dropWhile (\<lambda>c. c \<noteq> CHR ''/'') (rev p))) in
      if d = [] then (if take 1 p = ''/'' then ''/'' else ''.'') else d)"

definition posix_join :: "string \<Rightarrow> string \<Rightarrow> string" where
  "posix_join a b = (if a \<noteq> [] \<and> last a = CHR ''/'' then a @ b else a @ ''/'' @ b)"

definition https_pathname :: "string \<Rightarrow> string option" where
  "https_pathname s =
     (if take 8 s = ''https://'' then Some (dropWhile (\<lambda>c. c \<noteq> CHR ''/'') (drop 8 s)) else None)"

definition example_fetch :: "string \<Rightarrow> fetch_result" where
  "example_fetch url =
     (if take 8 url = ''https://'' then Response True ''OK'' ''IMGdownloaded''
      else Rejected (Error ''Only absolute URLs are supported''))"

definition example_metadata :: "(string \<rightharpoonup> node) \<Rightarrow> string \<Rightarrow> error + metadata" where
  "example_metadata files p =
     (case files p of
        Some (File c) \<Rightarrow>
          if take 3 c = ''IMG'' then Inr \<lparr>meta_format = ''jpeg'', meta_width = 4, meta_height = 3\<rparr>
          else Inl (Error ''Input file contains unsupported image format'')
      | _ \<Rightarrow> Inl (Error ''Input file is missing''))"

definition example_encode :: "(string \<rightharpoonup> node) \<Rightarrow> string \<Rightarrow> pipeline \<Rightarrow> string \<Rightarrow> error + string" where
  "example_encode files src ops dst =
     (case files src of
        Some (File c) \<Rightarrow>
          if take 3 c = ''IMG'' then Inr (take (3 + (length c - 3) div 2) c)
          else Inl (Error ''Input file contains unsupported image format'')
      | _ \<Rightarrow> Inl (Error ''Input file is missing''))"

definition example_env :: env where
  "example_env = \<lparr>
     script_dirname = ''/app'',
     answers = (\<lambda>n. []),
     URL_pathname = https_pathname,
     path_basename = posix_basename,
     path_basename_ext = posix_basename_ext,
     path_extname = posix_extname,
     path_dirname = posix_dirname,
     path_join = posix_join,
     fetch = example_fetch,
     sharp_metadata = example_metadata,
     sharp_encode = example_encode,
     directory_size = 4096\<rparr>"

definition example_files :: "string \<rightharpoonup> node" where
  "example_files =
     [''/app'' \<mapsto> Directory [''downloads''],
      ''/app/downloads'' \<mapsto> Directory [],
      ''/pics'' \<mapsto> Directory [''a.jpg'', ''b.txt'', ''c.png''],
      ''/pics/a.jpg'' \<mapsto> File ''IMG0123456789'',
      ''/pics/b.txt'' \<mapsto> File ''notes'',
      ''/pics/c.png'' \<mapsto> File ''IMGabcdefghijklmnopqrs'',
      ''/docs'' \<mapsto> Directory [''readme.md'', ''notes.txt''],
      ''/batch'' \<mapsto> Directory [''1.png'', ''2.png'', ''3.png'', ''4.png'', ''5.png''],
      ''/batch/1.png'' \<mapsto> File ''IMG11'',
      ''/batch/2.png'' \<mapsto> File ''IMG2222'',
      ''/batch/3.png'' \<mapsto> File ''broken'',
      ''/batch/4.png'' \<mapsto> File ''IMG444444'',
      ''/batch/5.png'' \<mapsto> File ''IMG55555555'']"

definition example_world :: world where
  "example_world = \<lparr>fs = example_files, asked = 0, out = []\<rparr>"

definition example_options :: options where
  "example_options =
     \<lparr>format = ''webp'', quality = Fin 80, shouldCrop = False, cropDimensions = None\<rparr>"

text \<open>The same environment with a user who names the directory without images and then
  accepts every default.\<close>

definition docs_env :: env where
  "docs_env = example_env\<lparr>answers := (\<lambda>n. if n = 0 then ''/docs'' else [])\<rparr>"

section \<open>The answers to the prompts\<close>

lemmas parse_defs = parseInt_def is_white_space_def radix_digit_def digit_of_def
  is_radix_digit_def digits_value_def


subsection \<open>Format\<close>

text \<open>
  C10: the format is \<^verbatim>\<open>webp\<close> when the answer is empty or is exactly \<^verbatim>\<open>1\<close>, and
  \<^verbatim>\<open>png\<close> for every other answer, whether it is \<^verbatim>\<open>2\<close> or not.
\<close>

theorem choose_format_cases:
  "choose_format formatChoice =
     (if formatChoice = [] \<or> formatChoice = ''1'' then ''webp'' else ''png'')"
  by (simp add: choose_format_def)

theorem choose_format_examples:
  "choose_format [] = ''webp'' \<and> choose_format ''1'' = ''webp'' \<and> choose_format ''2'' = ''png''
   \<and> choose_format ''3'' = ''png'' \<and> choose_format ''webp'' = ''png''"
  using choose_format_cases [of "[]"] choose_format_cases [of "''1''"]
    choose_format_cases [of "''2''"] choose_format_cases [of "''3''"]
    choose_format_cases [of "''webp''"]
  by simp

subsection \<open>Quality\<close>

lemma choose_quality_empty: "choose_quality [] = Fin 80"
  by (simp add: choose_quality_def)

lemma choose_quality_clamps:
  assumes "qualityInput \<noteq> []" and "parseInt qualityInput = Fin x"
  shows "choose_quality qualityInput = Fin (min 100 (max 0 x))"
  using assms by (simp add: choose_quality_def)

lemma choose_quality_no_digits:
  assumes "qualityInput \<noteq> []" and "parseInt qualityInput = NaN"
  shows "choose_quality qualityInput = NaN"
  using assms by (simp add: choose_quality_def)

text \<open>
  C4: an empty answer gives 80, \<^verbatim>\<open>150\<close> gives 100 and \<^verbatim>\<open>-5\<close> gives 0, but an answer
  without a leading number, such as \<^verbatim>\<open>abc\<close>, gives \<^verbatim>\<open>NaN\<close>: \<^verbatim>\<open>Math.max\<close> and
  \<^verbatim>\<open>Math.min\<close> pass the \<^verbatim>\<open>NaN\<close> of \<^verbatim>\<open>parseInt\<close> on, so the quality is no integer
  of the range 0 to 100.
\<close>

theorem choose_quality_abc:
  "choose_quality ''abc'' = NaN \<and> choose_quality [] = Fin 80
   \<and> choose_quality ''150'' = Fin 100 \<and> choose_quality ''-5'' = Fin 0"
  by (simp add: choose_quality_def parse_defs)

subsection \<open>Crop dimensions\<close>

lemma split_space_not_Nil [simp]: "split_space s \<noteq> []"
  by (induction s) (auto split: list.splits)










section \<open>Numbers\<close>

subsection \<open>Rounding to double precision\<close>

lemma bit_length_bounds:
  "0 < n \<Longrightarrow> 2 ^ (bit_length n - 1) \<le> n \<and> n < 2 ^ bit_length n"
proof (induction n rule: bit_length.induct)
  case (1 n)
  show ?case
  proof (cases "n div 2 = 0")
    case True
    with "1.prems" have "n = 1" by (simp add: div_eq_0_iff)
    then show ?thesis by (simp add: bit_length.simps [of "Suc 0"] bit_length.simps [of 0])
  next
    case False
    with "1.IH" "1.prems" have ih: "2 ^ (bit_length (n div 2) - 1) \<le> n div 2"
      "n div 2 < 2 ^ bit_length (n div 2)" by auto
    have bl: "bit_length n = Suc (bit_length (n div 2))"
      using "1.prems" by (simp add: bit_length.simps [of n])
    have pos: "0 < bit_length (n div 2)"
      using False by (simp add: bit_length.simps [of "n div 2"])
    have "2 ^ (bit_length n - 1) = 2 * 2 ^ (bit_length (n div 2) - 1)"
      using bl pos by (cases "bit_length (n div 2)") auto
    also have "\<dots> \<le> 2 * (n div 2)" using ih by simp
    also have "\<dots> \<le> n" by simp
    finally have lo: "2 ^ (bit_length n - 1) \<le> n" .
    have "n < 2 * (n div 2) + 2" by arith
    also have "\<dots> \<le> 2 * 2 ^ bit_length (n div 2)" using ih by simp
    finally have "n < 2 ^ bit_length n" using bl by simp
    with lo show ?thesis by simp
  qed
qed

lemma bit_length_pos: "0 < n \<Longrightarrow> 0 < bit_length n"
  by (simp add: bit_length.simps [of n])

lemma ilog2_lower:
  assumes "0 < x"
  shows "2 powi (ilog2 x) \<le> x"
proof (cases "1 \<le> x")
  case True
  define n where "n = nat \<lfloor>x\<rfloor>"
  have n: "0 < n" "of_nat n \<le> x"
    using True by (auto simp: n_def le_floor_iff)
  have k: "ilog2 x = int (bit_length n - 1)"
    using True bit_length_pos [OF n(1)] by (simp add: ilog2_def n_def)
  have "(2::rat) powi (ilog2 x) = of_nat (2 ^ (bit_length n - 1))"
    by (simp add: k)
  also have "\<dots> \<le> of_nat n"
    using bit_length_bounds [OF n(1)] by (simp only: of_nat_le_iff)
  finally show ?thesis using n by simp
next
  case False
  define c where "c = \<lceil>1 / x\<rceil>"
  define n where "n = nat (c - 1)"
  have inv: "1 < 1 / x" using assms False by simp
  then have c2: "2 \<le> c" unfolding c_def by (simp add: le_ceiling_iff)
  then have n: "0 < n" "int n = c - 1" by (auto simp: n_def)
  have k: "ilog2 x = - int (bit_length n)"
    using False by (simp add: ilog2_def n_def c_def)
  have "1 / x \<le> of_int c" by (simp add: c_def)
  also have "\<dots> = of_nat (n + 1)" using n by simp
  also have "\<dots> \<le> of_nat (2 ^ bit_length n)"
    using bit_length_bounds [OF n(1)] by (simp only: of_nat_le_iff) simp
  finally have "1 / x \<le> 2 ^ bit_length n" by simp
  then have "1 / 2 ^ bit_length n \<le> x"
    using assms by (simp add: field_simps)
  then show ?thesis
    by (simp add: k power_int_minus field_simps)
qed

lemma round_half_even_of_int [simp]: "round_half_even (of_int n) = n"
  by (simp add: round_half_even_def)

lemma round_half_even_error: "\<bar>of_int (round_half_even t) - t\<bar> \<le> 1 / 2"
proof -
  have "of_int \<lfloor>t\<rfloor> \<le> t" "t < of_int \<lfloor>t\<rfloor> + 1" by linarith+
  then show ?thesis
    by (auto simp: round_half_even_def Let_def)
qed

lemma two_powi_pos: "0 < (2::rat) powi k"
  by (simp add: zero_less_power_int)

lemma binary64_error: "\<bar>binary64 x - x\<bar> \<le> \<bar>x\<bar> / 2 ^ 53"
proof (cases "x = 0")
  case True
  then show ?thesis by (simp add: binary64_def)
next
  case False
  define k where "k = ilog2 \<bar>x\<bar>"
  define u where "u = (2::rat) powi (k - 52)"
  have u: "0 < u" by (simp add: u_def)
  have b: "binary64 x = of_int (round_half_even (x / u)) * u"
    using False by (simp add: binary64_def k_def u_def Let_def)
  have "binary64 x - x = (of_int (round_half_even (x / u)) - x / u) * u"
    using u by (simp add: b field_simps)
  then have "\<bar>binary64 x - x\<bar> = \<bar>of_int (round_half_even (x / u)) - x / u\<bar> * u"
    using u by (simp add: abs_mult)
  also have "\<dots> \<le> 1 / 2 * u"
    using round_half_even_error [of "x / u"] u by (intro mult_right_mono) auto
  also have "\<dots> = 2 powi k / 2 ^ 53"
    by (simp add: u_def power_int_diff)
  also have "\<dots> \<le> \<bar>x\<bar> / 2 ^ 53"
    using ilog2_lower [of "\<bar>x\<bar>"] False by (simp add: k_def divide_right_mono)
  finally show ?thesis .
qed

lemma binary64_exact:
  assumes "\<bar>m\<bar> < 2 ^ 53"
  shows "binary64 (of_int m * 2 powi j) = of_int m * 2 powi j"
proof (cases "m = 0")
  case True
  then show ?thesis by (simp add: binary64_def)
next
  case False
  define x where "x = (of_int m :: rat) * 2 powi j"
  define k where "k = ilog2 \<bar>x\<bar>"
  have x0: "x \<noteq> 0" using False by (simp add: x_def)
  have "2 powi k \<le> \<bar>x\<bar>" using ilog2_lower [of "\<bar>x\<bar>"] x0 by (simp add: k_def)
  also have "\<bar>x\<bar> = of_int \<bar>m\<bar> * 2 powi j" by (simp add: x_def abs_mult)
  also have "\<dots> < 2 ^ 53 * 2 powi j"
  proof -
    have "(of_int \<bar>m\<bar> :: rat) < of_int (2 ^ 53)" using assms by (simp only: of_int_less_iff)
    then show ?thesis by (intro mult_strict_right_mono) auto
  qed
  also have "\<dots> = 2 powi (53 + j)" by (simp add: power_int_add)
  finally have lt: "(2::rat) powi k < 2 powi (53 + j)" .
  have "k < 53 + j"
  proof (rule ccontr)
    assume "\<not> k < 53 + j"
    then have "(2::rat) powi (53 + j) \<le> 2 powi k"
      by (intro power_int_increasing) auto
    with lt show False by simp
  qed
  then obtain e where e: "j - (k - 52) = int e"
    using nonneg_int_cases [of "j - (k - 52)"] by auto
  have "x / 2 powi (k - 52) = of_int m * 2 powi (j - (k - 52))"
    by (simp add: x_def power_int_diff)
  also have "\<dots> = of_int (m * 2 ^ e)" by (simp add: e)
  finally have "round_half_even (x / 2 powi (k - 52)) = m * 2 ^ e"
    by (simp only: round_half_even_of_int)
  then have "binary64 x = of_int (m * 2 ^ e) * 2 powi (k - 52)"
    using x0 by (simp add: binary64_def k_def Let_def)
  also have "\<dots> = of_int m * (2 powi (int e) * 2 powi (k - 52))" by simp
  also have "2 powi (int e) * (2::rat) powi (k - 52) = 2 powi j"
    by (simp add: power_int_add [symmetric] e [symmetric] del: power_int_of_nat)
  finally show ?thesis by (simp add: x_def)
qed


subsection \<open>Printing and reading numbers\<close>

lemma digit_char_props:
  assumes "d < 10"
  shows "radix_digit 10 (digit_char d) = Some d"
    and "digit_char d \<noteq> CHR '' ''" and "digit_char d \<noteq> CHR ''.''"
proof -
  from assms have "d \<in> {0, 1, 2, 3, 4, 5, 6, 7, 8, 9}" by auto
  then show "radix_digit 10 (digit_char d) = Some d"
    and "digit_char d \<noteq> CHR '' ''" and "digit_char d \<noteq> CHR ''.''"
    by (auto simp: digit_char_def radix_digit_def digit_of_def)
qed

lemma show_nat_digits:
  "list_all (is_radix_digit 10) (show_nat n) \<and> show_nat n \<noteq> []
   \<and> digits_value 10 (show_nat n) = n"
proof (induction n rule: show_nat.induct)
  case (1 n)
  show ?case
  proof (cases "n < 10")
    case True
    then show ?thesis
      by (simp add: show_nat.simps [of n] is_radix_digit_def digits_value_def digit_char_props)
  next
    case False
    with 1 have ih: "list_all (is_radix_digit 10) (show_nat (n div 10))"
      "digits_value 10 (show_nat (n div 10)) = n div 10" by auto
    have m: "n mod 10 < 10" by simp
    have d: "is_radix_digit 10 (digit_char (n mod 10))"
      "the (radix_digit 10 (digit_char (n mod 10))) = n mod 10"
      using digit_char_props(1) [OF m] by (simp_all add: is_radix_digit_def)
    show ?thesis
      using False ih d
      by (simp add: show_nat.simps [of n] digits_value_def)
  qed
qed

lemma all_digits_show_nat [simp]: "all_digits 10 (show_nat n)"
  using show_nat_digits [of n] by (simp add: all_digits_def)

lemma digits_value_show_nat [simp]: "digits_value 10 (show_nat n) = n"
  using show_nat_digits [of n] by simp

lemma digit_not_space: "is_radix_digit 10 c \<Longrightarrow> c \<noteq> CHR '' '' \<and> c \<noteq> CHR ''.''"
  by (auto simp: is_radix_digit_def radix_digit_def digit_of_def)

lemma show_nat_no_space [simp]:
  "CHR '' '' \<notin> set (show_nat n)" "CHR ''.'' \<notin> set (show_nat n)"
  using show_nat_digits [of n] digit_not_space by (auto simp: list_all_iff)

lemma read_nat_show_nat: "read_nat (show_nat n) = Some n"
  by (simp add: read_nat_def)

lemma unit_part_append:
  "CHR '' '' \<notin> set u \<Longrightarrow> unit_part (s @ CHR '' '' # u) = u"
  by (simp add: unit_part_def takeWhile_append)

lemma takeWhile_all: "\<forall>x\<in>set xs. P x \<Longrightarrow> takeWhile P (xs @ y # ys) = (if P y then xs @ takeWhile P (y # ys) else xs)"
  by (simp add: takeWhile_append)

lemma number_part_append:
  "CHR '' '' \<notin> set u \<Longrightarrow> number_part (s @ CHR '' '' # u) = s"
proof -
  assume a: "CHR '' '' \<notin> set u"
  have "dropWhile (\<lambda>c. c \<noteq> CHR '' '') (rev u @ CHR '' '' # rev s) = CHR '' '' # rev s"
    using a by (subst dropWhile_append2) auto
  then show ?thesis by (simp add: number_part_def)
qed


lemma digits_value_two:
  "radix_digit 10 c1 = Some a \<Longrightarrow> radix_digit 10 c2 = Some b \<Longrightarrow>
     digits_value 10 [c1, c2] = a * 10 + b \<and> all_digits 10 [c1, c2]"
  by (simp add: digits_value_def all_digits_def is_radix_digit_def)

lemma two_digits:
  "digits_value 10 [digit_char (n mod 100 div 10), digit_char (n mod 10)] = n mod 100"
  "all_digits 10 [digit_char (n mod 100 div 10), digit_char (n mod 10)]"
proof -
  have d1: "n mod 100 div 10 < 10" by (simp add: div_less_iff_less_mult)
  have d2: "n mod 10 < 10" by simp
  note two = digits_value_two [OF digit_char_props(1) [OF d1] digit_char_props(1) [OF d2]]
  have "n mod 10 = n mod 100 mod 10" by (simp add: mod_mod_cancel)
  then have "(n mod 100 div 10) * 10 + n mod 10 = n mod 100"
    by (simp only: div_mult_mod_eq)
  with two show "digits_value 10 [digit_char (n mod 100 div 10), digit_char (n mod 10)] = n mod 100"
    by (simp only:)
  from two show "all_digits 10 [digit_char (n mod 100 div 10), digit_char (n mod 10)]"
    by (simp only:)
qed

lemma read_fixed2_fixed2: "read_fixed2 (fixed2 n) = Some n"
proof -
  define a where "a = show_nat (n div 100)"
  define f where "f = [digit_char (n mod 100 div 10), digit_char (n mod 10)]"
  have s: "fixed2 n = a @ CHR ''.'' # f" by (simp add: fixed2_def a_def f_def)
  have nodot: "CHR ''.'' \<notin> set a" by (simp add: a_def)
  have tw: "takeWhile (\<lambda>c. c \<noteq> CHR ''.'') (a @ CHR ''.'' # f) = a"
    using nodot by (simp add: takeWhile_append)
  have dw: "dropWhile (\<lambda>c. c \<noteq> CHR ''.'') (a @ CHR ''.'' # f) = CHR ''.'' # f"
    using nodot by (simp add: dropWhile_append)
  have fd: "all_digits 10 f" "digits_value 10 f = n mod 100" "length f = 2"
    by (simp_all only: f_def two_digits) simp
  have ad: "all_digits 10 a" "digits_value 10 a = n div 100"
    by (simp_all add: a_def)
  have "read_fixed2 (a @ CHR ''.'' # f) = Some (digits_value 10 a * 100 + digits_value 10 f)"
    by (simp only: read_fixed2_def Let_def tw dw) (simp add: fd ad)
  then show ?thesis by (simp only: s fd ad) simp
qed

lemma fixed2_no_space: "CHR '' '' \<notin> set (fixed2 n)"
proof -
  have d1: "n mod 100 div 10 < 10" by (simp add: div_less_iff_less_mult)
  have d2: "n mod 10 < 10" by simp
  show ?thesis
    using digit_char_props(2) [OF d1] digit_char_props(2) [OF d2]
    by (simp add: fixed2_def)
qed

lemma js_divide_exact:
  assumes "0 \<le> b" "b < 2 ^ 53"
  shows "js_divide b 1024 = Fin (of_int b / 1024)"
    and "js_divide b (1024 * 1024) = Fin (of_int b / (1024 * 1024))"
proof -
  have m: "\<bar>b\<bar> < 2 ^ 53" using assms by simp
  have "(of_int b :: rat) / 1024 = of_int b * 2 powi (- 10)"
    by (simp add: power_int_minus field_simps)
  then have "binary64 (of_int b / 1024) = of_int b / 1024"
    using binary64_exact [OF m, of "- 10"] by simp
  then show "js_divide b 1024 = Fin (of_int b / 1024)"
    by (simp add: js_divide_def)
  have "(of_int b :: rat) / (1024 * 1024) = of_int b * 2 powi (- 20)"
    by (simp add: power_int_minus field_simps)
  then have "binary64 (of_int b / (1024 * 1024)) = of_int b / (1024 * 1024)"
    using binary64_exact [OF m, of "- 20"] by simp
  then show "js_divide b (1024 * 1024) = Fin (of_int b / (1024 * 1024))"
    by (simp add: js_divide_def)
qed

lemma toFixed2_nonneg:
  assumes "0 \<le> q"
  shows "\<exists>n. toFixed2 (Fin q) = fixed2 n \<and> \<bar>of_nat n / 100 - q\<bar> \<le> 1 / 200"
proof -
  define n where "n = nat \<lfloor>q * 100 + 1 / 2\<rfloor>"
  have f0: "0 \<le> \<lfloor>q * 100 + 1 / 2\<rfloor>" using assms by simp
  then have n: "(of_nat n :: rat) = of_int \<lfloor>q * 100 + 1 / 2\<rfloor>"
    by (simp add: n_def)
  define F :: rat where "F = of_int \<lfloor>q * 100 + 1 / 2\<rfloor>"
  have "F \<le> q * 100 + 1 / 2" "q * 100 + 1 / 2 < F + 1"
    unfolding F_def by linarith+
  then have "\<bar>F / 100 - q\<bar> \<le> 1 / 200" by linarith
  then have "\<bar>of_nat n / 100 - q\<bar> \<le> 1 / 200"
    unfolding n F_def .
  moreover have "toFixed2 (Fin q) = fixed2 n"
    using assms by (simp add: toFixed2_def n_def)
  ultimately show ?thesis by blast
qed


subsection \<open>\<^verbatim>\<open>formatFileSize\<close>\<close>

text \<open>
  C3: for a byte count \<open>b\<close> with \<open>0 \<le> b < 2\<^sup>5\<^sup>3\<close> (every size that \<^verbatim>\<open>statSync\<close> reports
  exactly), \<^verbatim>\<open>formatFileSize\<close> prints bytes when \<open>b < 1024\<close>, kilobytes when
  \<open>1024 \<le> b < 1024 * 1024\<close> and megabytes otherwise; the number printed is \<open>b\<close> itself for
  bytes, and for kilobytes and megabytes a decimal with exactly two fraction digits that
  lies within half a hundredth of \<open>b / 1024\<close> and of \<open>b / (1024 * 1024)\<close>.
\<close>

theorem formatFileSize_units:
  assumes "0 \<le> b" and "b < 2 ^ 53"
  shows "unit_part (formatFileSize b)
           = (if b < 1024 then ''B'' else if b < 1024 * 1024 then ''KB'' else ''MB'')
    \<and> (b < 1024 \<longrightarrow> read_nat (number_part (formatFileSize b)) = Some (nat b))
    \<and> (1024 \<le> b \<and> b < 1024 * 1024 \<longrightarrow>
          (\<exists>n. read_fixed2 (number_part (formatFileSize b)) = Some n
             \<and> \<bar>of_nat n / 100 - of_int b / 1024\<bar> \<le> (1 / 200 :: rat)))
    \<and> (1024 * 1024 \<le> b \<longrightarrow>
          (\<exists>n. read_fixed2 (number_part (formatFileSize b)) = Some n
             \<and> \<bar>of_nat n / 100 - of_int b / (1024 * 1024)\<bar> \<le> (1 / 200 :: rat)))"
proof -
  consider (B) "b < 1024" | (KB) "1024 \<le> b" "b < 1024 * 1024" | (MB) "1024 * 1024 \<le> b"
    by linarith
  then show ?thesis
  proof cases
    case B
    then have "formatFileSize b = show_nat (nat b) @ CHR '' '' # ''B''"
      using assms by (simp add: formatFileSize_def show_int_def)
    then show ?thesis
      using B by (simp add: unit_part_append number_part_append read_nat_show_nat)
  next
    case KB
    have q: "(0::rat) \<le> of_int b / 1024" using assms by simp
    obtain n where n: "toFixed2 (Fin (of_int b / 1024)) = fixed2 n"
      "\<bar>of_nat n / 100 - of_int b / 1024\<bar> \<le> (1 / 200 :: rat)"
      using toFixed2_nonneg [OF q] by blast
    have "formatFileSize b = fixed2 n @ CHR '' '' # ''KB''"
      using KB n(1) js_divide_exact(1) [OF assms] by (simp add: formatFileSize_def)
    then show ?thesis
      using KB n(2) by (simp add: unit_part_append number_part_append read_fixed2_fixed2)
  next
    case MB
    have q: "(0::rat) \<le> of_int b / (1024 * 1024)" using assms by simp
    obtain n where n: "toFixed2 (Fin (of_int b / (1024 * 1024))) = fixed2 n"
      "\<bar>of_nat n / 100 - of_int b / (1024 * 1024)\<bar> \<le> (1 / 200 :: rat)"
      using toFixed2_nonneg [OF q] by blast
    have "formatFileSize b = fixed2 n @ CHR '' '' # ''MB''"
      using MB n(1) js_divide_exact(2) [OF assms] by (simp add: formatFileSize_def)
    then show ?thesis
      using MB n(2) by (simp add: unit_part_append number_part_append read_fixed2_fixed2)
  qed
qed

text \<open>1536 bytes are printed as \<^verbatim>\<open>1.50 KB\<close>.\<close>

theorem formatFileSize_1536:
  "formatFileSize 1536 = ''1.50 KB'' \<and> unit_part (formatFileSize 1536) = ''KB''
   \<and> (\<exists>n. read_fixed2 (number_part (formatFileSize 1536)) = Some n
          \<and> \<bar>of_nat n / 100 - 1536 / 1024\<bar> \<le> (1 / 200 :: rat))"
proof -
  have "formatFileSize 1536 = ''1.50 KB''" by code_simp
  moreover have "unit_part (formatFileSize 1536) = ''KB''
    \<and> (\<exists>n. read_fixed2 (number_part (formatFileSize 1536)) = Some n
          \<and> \<bar>of_nat n / 100 - 1536 / 1024\<bar> \<le> (1 / 200 :: rat))"
    using formatFileSize_units [of 1536] by simp
  ultimately show ?thesis by blast
qed

section \<open>Effects of the steps\<close>

subsection \<open>Steps that leave an observation alone\<close>

lemma stable_returnIO: "stable f (returnIO a)"
  by (simp add: stable_def returnIO_def)

lemma stable_throwIO: "stable f (throwIO e)"
  by (simp add: stable_def throwIO_def)

lemma stable_bindIO:
  assumes "stable f m" and "\<And>a. stable f (k a)"
  shows "stable f (bindIO m k)"
proof -
  have "f (snd (bindIO m k w)) = f w" for w
  proof (cases "m w")
    case (Pair r w')
    have w': "f w' = f w" using assms(1) Pair by (metis stable_def snd_conv)
    show ?thesis
    proof (cases r)
      case (Inl e)
      with Pair w' show ?thesis by (simp add: bindIO_def)
    next
      case (Inr a)
      have "f (snd (k a w')) = f w'" using assms(2) by (simp add: stable_def)
      with Pair Inr w' show ?thesis by (simp add: bindIO_def)
    qed
  qed
  then show ?thesis by (simp add: stable_def)
qed

lemma stable_thenIO: "stable f m \<Longrightarrow> stable f k \<Longrightarrow> stable f (thenIO m k)"
  by (simp add: thenIO_def stable_bindIO)

lemma stable_read: "stable f (\<lambda>w. (g w, w))"
  by (simp add: stable_def)

lemma stable_if:
  "stable f m \<Longrightarrow> stable f k \<Longrightarrow> stable f (\<lambda>w. if c w then m w else k w)"
  by (simp add: stable_def)

lemma stable_case_fetch:
  "(\<And>err. stable f (k1 err)) \<Longrightarrow> (\<And>ok st body. stable f (k2 ok st body)) \<Longrightarrow>
     stable f (case r of Rejected err \<Rightarrow> k1 err | Response ok st body \<Rightarrow> k2 ok st body)"
  by (cases r) simp_all

text \<open>The file operations change the files and nothing else.\<close>

lemma out_add_entry [simp]: "out (add_entry E p n es w) = out w"
  by (simp add: add_entry_def Let_def)

lemma out_mkdirSync [simp]: "out (snd (mkdirSync E p w)) = out w"
  by (simp add: mkdirSync_def split: option.splits node.splits)

lemma out_writeFileSync [simp]: "out (snd (writeFileSync E p c w)) = out w"
  by (simp add: writeFileSync_def split: option.splits node.splits)

lemma stable_mkdirSync: "stable (\<lambda>w. g (out w)) (mkdirSync E p)"
  by (simp add: stable_def)

lemma stable_writeFileSync: "stable (\<lambda>w. g (out w)) (writeFileSync E p c)"
  by (simp add: stable_def)

lemma out_put [simp]: "out (put e w) = out w @ [e]"
  by (simp add: put_def)

lemma fs_put [simp]: "fs (put e w) = fs w"
  by (simp add: put_def)

lemma console_errors_append [simp]:
  "console_errors (xs @ ys) = console_errors xs @ console_errors ys"
  by (simp add: console_errors_def)

lemma spinner_texts_append [simp]:
  "spinner_texts (xs @ ys) = spinner_texts xs @ spinner_texts ys"
  by (simp add: spinner_texts_def)

lemma http_requests_append [simp]:
  "http_requests (xs @ ys) = http_requests xs @ http_requests ys"
  by (simp add: http_requests_def)

lemma stable_emit:
  "g [e] = [] \<Longrightarrow> (\<And>xs ys. g (xs @ ys) = g xs @ g ys) \<Longrightarrow> stable (\<lambda>w. g (out w)) (emit e)"
  by (simp add: stable_def emit_def)

lemmas stable_intros = stable_thenIO stable_bindIO stable_read stable_if stable_mkdirSync
  stable_writeFileSync stable_returnIO stable_throwIO stable_emit stable_case_fetch

lemma thenIO_emit_observed:
  assumes "stable (\<lambda>w. g (out w)) k" and "\<And>xs ys. g (xs @ ys) = g xs @ g ys" and "g [e] = r"
  shows "g (out (snd (thenIO (emit e) k w))) = g (out w) @ r"
proof -
  have "thenIO (emit e) k w = k (put e w)"
    by (simp add: thenIO_def bindIO_def emit_def)
  moreover have "g (out (snd (k (put e w)))) = g (out (put e w))"
    using assms(1) by (simp add: stable_def)
  ultimately show ?thesis using assms(2,3) by simp
qed

subsection \<open>What \<^verbatim>\<open>processImage\<close> shows\<close>





subsection \<open>The loop over the files of a directory\<close>

lemma processedStats_record_stats [simp]:
  "processedStats (record_stats st t) = processedStats t @ [st]"
  by (simp add: record_stats_def)

lemma successes_simps [simp]:
  "successes [] = []"
  "successes ((f, Inr st) # rs) = st # successes rs"
  "successes ((f, Inl err) # rs) = successes rs"
  by (simp_all add: successes_def)

lemma failures_simps [simp]:
  "failures [] = []"
  "failures ((f, Inr st) # rs) = failures rs"
  "failures ((f, Inl err) # rs) = (f, err) # failures rs"
  by (simp_all add: failures_def)





section \<open>The batch\<close>

lemmas io_defs = returnIO_def throwIO_def bindIO_def thenIO_def emit_def put_def ask_def
  question_def existsSync_def statSync_def readdirSync_def add_entry_def mkdirSync_def
  writeFileSync_def downloadImage_def downloadDir_def

lemmas example_defs = example_env_def example_world_def example_options_def example_files_def
  posix_basename_def posix_extname_def posix_basename_ext_def posix_dirname_def posix_join_def
  https_pathname_def example_fetch_def example_metadata_def example_encode_def

lemmas run_defs = processImage_def processImage_try_def io_defs example_defs
  dimensions_text_def show_nat.simps digit_char_def Let_def suffix_to_prefix
  processing_error_def initial_totals_def



section \<open>Totals and report\<close>

subsection \<open>The running totals\<close>

lemma totals_consistent_initial: "totals_consistent initial_totals"
  by (simp add: totals_consistent_def initial_totals_def)

lemma totals_consistent_record_stats:
  "totals_consistent t \<Longrightarrow> totals_consistent (record_stats st t)"
  by (simp add: totals_consistent_def record_stats_def)

lemma totals_consistent_process_files:
  "totals_consistent t \<Longrightarrow> totals_consistent (fst (process_files E opts dir files (t, w)))"
proof (induction files arbitrary: t w)
  case Nil
  then show ?case by simp
next
  case (Cons f rest)
  obtain r w' where p: "processImage E (path_join E dir f) opts w = (r, w')"
    by (cases "processImage E (path_join E dir f) opts w")
  show ?case
  proof (cases r)
    case (Inl err)
    then show ?thesis
      using p Cons.IH [OF Cons.prems, of "put (processing_error f err) w'"] by simp
  next
    case (Inr st)
    then show ?thesis
      using p Cons.IH [OF totals_consistent_record_stats [OF Cons.prems], of st w'] by simp
  qed
qed

lemma totals_consistent_process_path:
  assumes "totals_consistent t"
  shows "totals_consistent (fst (snd (process_path E opts p (t, w))))"
proof -
  have "totals_consistent (fst (process_files E opts p files (t, w1)))" for files w1
    using assms by (rule totals_consistent_process_files)
  then show ?thesis
    using assms totals_consistent_record_stats [OF assms]
    by (simp add: process_path_def Let_def split_beta split: sum.splits)
qed

lemma totals_consistent_process_input:
  assumes "totals_consistent t"
  shows "totals_consistent (fst (process_input E opts p (t, w)))"
proof -
  have "totals_consistent (fst (snd (process_path E opts p' (t, w1))))" for p' w1
    using assms by (rule totals_consistent_process_path)
  then show ?thesis
    using assms
    by (simp add: process_input_def Let_def split_beta split: sum.splits option.splits)
qed

lemma totals_consistent_process_inputs:
  "totals_consistent t \<Longrightarrow> totals_consistent (fst (process_inputs E opts inputPaths (t, w)))"
proof (induction inputPaths arbitrary: t w)
  case Nil
  then show ?case by (simp add: process_inputs_def)
next
  case (Cons p ps)
  obtain t' w' where s: "process_input E opts p (t, w) = (t', w')"
    by (cases "process_input E opts p (t, w)")
  then have "totals_consistent t'"
    using totals_consistent_process_input [OF Cons.prems, of E opts p w] by simp
  from Cons.IH [OF this, of w'] s show ?case
    by (simp add: process_inputs_def)
qed

lemma sum_list_saved:
  "sum_list (map originalSize sts)
     - sum_list (map (\<lambda>st. originalSize st - optimizedSize st) sts)
   = sum_list (map optimizedSize sts)"
  by (induction sts) simp_all

text \<open>
  C7: whatever the input paths, when \<^verbatim>\<open>main\<close> has processed them and at least one record
  was made, the line \<^verbatim>\<open>Total Size After\<close> of the report shows the total of the original
  sizes minus the total saved, where the total saved is the sum over the records of
  original size minus optimized size and the total original is the sum of the original
  sizes; so what is shown is exactly the sum of the optimized sizes.
\<close>

theorem total_after_is_original_minus_saved:
  assumes "process_inputs E opts inputPaths (initial_totals, w) = (t, w')"
    and "processedStats t \<noteq> []"
  shows "total_lines t ! 2
           = ConsoleLog (''   Total Size After:  ''
               @ formatFileSize (totalOriginalBytes t - totalSavedBytes t))
    \<and> totalSavedBytes t
        = sum_list (map (\<lambda>st. originalSize st - optimizedSize st) (processedStats t))
    \<and> totalOriginalBytes t = sum_list (map originalSize (processedStats t))
    \<and> totalOriginalBytes t - totalSavedBytes t = sum_list (map optimizedSize (processedStats t))"
proof -
  have "totals_consistent (fst (process_inputs E opts inputPaths (initial_totals, w)))"
    using totals_consistent_initial by (rule totals_consistent_process_inputs)
  then have c: "totals_consistent t" using assms(1) by simp
  then have "totalOriginalBytes t - totalSavedBytes t
      = sum_list (map optimizedSize (processedStats t))"
    by (simp add: totals_consistent_def sum_list_saved)
  moreover have "total_lines t ! 2
      = ConsoleLog (''   Total Size After:  ''
          @ formatFileSize (totalOriginalBytes t - totalSavedBytes t))"
    using assms(2) by (simp add: total_lines_def Let_def)
  ultimately show ?thesis using c by (simp add: totals_consistent_def)
qed

lemmas main_defs = process_inputs_def process_input_def process_path_def path_error_def
  is_image_file_def image_extensions_def to_lower_def isURL_def record_stats_def

text \<open>
  The directory of five files, four of them images of 5, 7, 9 and 11 bytes that are
  encoded to 4, 5, 6 and 7 bytes: 32 bytes before, 10 saved, 22 after.
\<close>

theorem total_after_batch:
  "total_lines (fst (process_inputs example_env example_options [''/batch'']
       (initial_totals, example_world))) ! 2
     = ConsoleLog ''   Total Size After:  22 B''
   \<and> totalOriginalBytes (fst (process_inputs example_env example_options [''/batch'']
       (initial_totals, example_world))) = 32
   \<and> totalSavedBytes (fst (process_inputs example_env example_options [''/batch'']
       (initial_totals, example_world))) = 10
   \<and> map optimizedSize (processedStats (fst (process_inputs example_env example_options
       [''/batch''] (initial_totals, example_world)))) = [4, 5, 6, 7]"
proof -
  let ?R = "process_inputs example_env example_options [''/batch'']
       (initial_totals, example_world)"
  have o: "totalOriginalBytes (fst ?R) = 32" and s: "totalSavedBytes (fst ?R) = 10"
    and p: "map optimizedSize (processedStats (fst ?R)) = [4, 5, 6, 7]"
    by (simp_all add: main_defs run_defs)
  have ne: "processedStats (fst ?R) \<noteq> []" using p by auto
  have f: "formatFileSize 22 = ''22 B''"
    by (simp add: formatFileSize_def show_int_def show_nat.simps digit_char_def)
  have "?R = (fst ?R, snd ?R)" by simp
  from total_after_is_original_minus_saved [OF this ne]
  have "total_lines (fst ?R) ! 2 = ConsoleLog (''   Total Size After:  ''
               @ formatFileSize (totalOriginalBytes (fst ?R) - totalSavedBytes (fst ?R)))"
    by (rule conjunct1)
  then have "total_lines (fst ?R) ! 2 = ConsoleLog ''   Total Size After:  22 B''"
    by (simp only: o s) (simp add: f)
  then show ?thesis using o s p by (simp only: simp_thms)
qed

section \<open>Resolving the input paths\<close>

subsection \<open>A directory among the input paths\<close>





subsection \<open>The report when nothing was processed\<close>

text \<open>
  C8: when the options were read and the loop over the input paths has left
  \<^verbatim>\<open>processedStats\<close> empty, the aggregate block of the report is the one line
  \<^verbatim>\<open>No images were processed successfully.\<close>; the whole report is the heading, that
  line and the output directory, with no percentage and so no division by the total of
  zero; and \<^verbatim>\<open>main\<close> ends on its success message and closes the terminal, without
  the failure message of its \<^verbatim>\<open>catch\<close>.
\<close>

theorem report_without_records:
  fixes E :: env and w :: world
  defines "r \<equiv> read_options E w"
  assumes "fst r = Inr (inputPaths, opts)"
    and "processedStats (fst (process_inputs E opts inputPaths (initial_totals, snd r))) = []"
  shows "total_lines (fst (process_inputs E opts inputPaths (initial_totals, snd r)))
           = [ConsoleLog ''No images were processed successfully.'']
    \<and> out (main E w)
        = out (snd (process_inputs E opts inputPaths (initial_totals, snd r)))
          @ [ConsoleLog ([CHR 0x0A] @ bar_chart @ '' Optimization Results:'' @ [CHR 0x0A]),
             ConsoleLog ''No images were processed successfully.'',
             ConsoleLog ([CHR 0x0A] @ floppy_disk @ '' Output Directory: ''
                           @ path_join E (path_dirname E (hd inputPaths)) ''optimized''),
             SpinnerSucceed ''All operations completed successfully!'',
             RlClose]"
proof -
  let ?pi = "process_inputs E opts inputPaths (initial_totals, snd r)"
  have ro: "read_options E w = (Inr (inputPaths, opts), snd r)"
    using assms(2) by (simp add: r_def prod_eq_iff)
  have tl: "total_lines (fst ?pi) = [ConsoleLog ''No images were processed successfully.'']"
    using assms(3) by (simp add: total_lines_def)
  have rep: "report E inputPaths (fst ?pi)
      = [ConsoleLog ([CHR 0x0A] @ bar_chart @ '' Optimization Results:'' @ [CHR 0x0A]),
         ConsoleLog ''No images were processed successfully.'',
         ConsoleLog ([CHR 0x0A] @ floppy_disk @ '' Output Directory: ''
                       @ path_join E (path_dirname E (hd inputPaths)) ''optimized''),
         SpinnerSucceed ''All operations completed successfully!'']"
    using assms(3) by (simp add: report_def tl enumerate_eq_zip)
  have "main_try E w = (Inr (), (snd ?pi)\<lparr>out := out (snd ?pi) @ report E inputPaths (fst ?pi)\<rparr>)"
    by (simp add: main_try_def bindIO_def ro split_beta Let_def)
  then have "out (main E w) = out (snd ?pi) @ report E inputPaths (fst ?pi) @ [RlClose]"
    by (simp add: main_def put_def)
  with tl rep show ?thesis by simp
qed

lemmas prompt_defs = read_options_def cleanPath_def is_quote_def trim_def is_white_space_def
  choose_format_def choose_quality_def choose_crop_def to_lower_def

text \<open>The user names a directory that holds no image.\<close>

theorem report_docs:
  "console_errors (out (main docs_env example_world))
     = [''Error with path /docs: No image files found in the directory!'']
   \<and> drop 7 (out (main docs_env example_world))
     = [ConsoleError ''Error with path /docs: No image files found in the directory!'',
        ConsoleLog ([CHR 0x0A] @ bar_chart @ '' Optimization Results:'' @ [CHR 0x0A]),
        ConsoleLog ''No images were processed successfully.'',
        ConsoleLog ([CHR 0x0A] @ floppy_disk @ '' Output Directory: /optimized''),
        SpinnerSucceed ''All operations completed successfully!'',
        RlClose]"
proof -
  let ?r = "read_options docs_env example_world"
  have o: "fst ?r = Inr ([''/docs''], example_options)"
    by (simp add: prompt_defs io_defs docs_env_def example_defs)
  have l: "length (out (snd ?r)) = 7"
    by (simp add: prompt_defs io_defs docs_env_def example_defs)
  have e: "out (snd (process_inputs docs_env example_options [''/docs'']
              (initial_totals, snd ?r)))
      = out (snd ?r)
        @ [ConsoleError ''Error with path /docs: No image files found in the directory!'']"
    and p: "processedStats (fst (process_inputs docs_env example_options [''/docs'']
              (initial_totals, snd ?r))) = []"
    by (simp_all add: main_defs run_defs docs_env_def prompt_defs)
  have c: "console_errors (out (snd ?r)) = []"
    by (simp add: prompt_defs io_defs docs_env_def example_defs console_errors_def)
  have d: "path_join docs_env (path_dirname docs_env (hd [''/docs''])) ''optimized''
      = ''/optimized''"
    by (simp add: docs_env_def example_defs)
  note m = report_without_records [OF o p, THEN conjunct2]
  have "out (main docs_env example_world)
      = out (snd ?r)
        @ [ConsoleError ''Error with path /docs: No image files found in the directory!'',
           ConsoleLog ([CHR 0x0A] @ bar_chart @ '' Optimization Results:'' @ [CHR 0x0A]),
           ConsoleLog ''No images were processed successfully.'',
           ConsoleLog ([CHR 0x0A] @ floppy_disk @ '' Output Directory: /optimized''),
           SpinnerSucceed ''All operations completed successfully!'',
           RlClose]"
    by (simp only: m e d) simp
  then show ?thesis using l c by (simp add: console_errors_def)
qed

subsection \<open>A URL among the input paths\<close>

lemma stable_if_const: "stable f m \<Longrightarrow> stable f k \<Longrightarrow> stable f (if c then m else k)"
  by simp

lemma downloadImage_requests:
  "http_requests (out (snd (downloadImage E url p w))) = http_requests (out w) @ [url]"
  unfolding downloadImage_def
  by (rule thenIO_emit_observed [where g = http_requests];
      (intro stable_intros stable_if_const)?; simp add: http_requests_def)

text \<open>
  Whatever the libraries do: the one request that the download step makes goes to the
  path it has just computed for the file to be written, since line 145 has put that path
  into the variable that line 152 passes as the URL.
\<close>

lemma download_input_requests:
  "http_requests (out (snd (snd (download_input E pathname w))))
     = http_requests (out w) @ [fst (download_input E pathname w)]"
proof -
  define urlFilename where "urlFilename = path_basename E pathname"
  define query where "query = ''Enter output file name for '' @ urlFilename
                                    @ '' (leave blank to use URL file name): ''"
  define joined where "joined = path_join E (downloadDir E)
      (if answers E (asked w) \<noteq> [] then answers E (asked w) else urlFilename)"
  define p' where "p' = (if path_extname E joined = []
      then joined @ path_extname E urlFilename else joined)"
  define w2 where "w2 = put (ConsoleLog (''Downloading image from URL: '' @ p' @ ''...''))
      (snd (ask E query w))"
  have d: "download_input E pathname w
      = (case downloadImage E p' p' w2 of
           (Inl err, w3) \<Rightarrow> (p', Inl err, w3)
         | (Inr u, w3) \<Rightarrow> (p', Inr (), put (ConsoleLog ''Image downloaded successfully.'') w3))"
    unfolding download_input_def Let_def ask_def urlFilename_def query_def joined_def
      p'_def w2_def
    by (simp only: prod.case snd_conv)
  have o: "http_requests (out w2) = http_requests (out w)"
    by (simp add: w2_def ask_def put_def http_requests_def)
  obtain r w3 where r: "downloadImage E p' p' w2 = (r, w3)"
    by (cases "downloadImage E p' p' w2")
  with downloadImage_requests [of E p' p' w2] o
  have w3: "http_requests (out w3) = http_requests (out w) @ [p']" by simp
  show ?thesis
    by (cases r) (simp_all add: d r w3, simp add: http_requests_def)
qed

lemma download_input_path:
  "fst (download_input E pathname w)
     = (let urlFilename = path_basename E pathname;
            outputFileName = answers E (asked w);
            joined = path_join E (downloadDir E)
                       (if outputFileName \<noteq> [] then outputFileName else urlFilename)
        in if path_extname E joined = [] then joined @ path_extname E urlFilename else joined)"
  by (simp add: download_input_def Let_def ask_def split_beta split: sum.split)

text \<open>
  C1: for an input token that is a URL, the download step of lines 139 to 153 makes one
  request, and the address of that request is the path of the file to be written: the
  downloads directory joined with the answer to the file-name prompt, or with the last
  segment of the URL's path when the answer is empty, and the extension of that segment
  appended when the joined path has none. Of the token only the last segment of its path
  enters this address; its scheme and host do not.
\<close>

theorem download_requests_destination_path:
  "http_requests (out (snd (snd (download_input E pathname w))))
     = http_requests (out w) @ [fst (download_input E pathname w)]
   \<and> fst (download_input E pathname w)
     = (let urlFilename = path_basename E pathname;
            outputFileName = answers E (asked w);
            joined = path_join E (downloadDir E)
                       (if outputFileName \<noteq> [] then outputFileName else urlFilename)
        in if path_extname E joined = [] then joined @ path_extname E urlFilename else joined)"
  by (intro conjI download_input_requests download_input_path)

text \<open>
  The token \<^verbatim>\<open>https://example.com/cat.png\<close> with an empty answer to the file-name prompt:
  the one request goes to \<^verbatim>\<open>/app/downloads/cat.png\<close>, which the library rejects as no
  absolute URL; the loop prints the error for that path, no file is written and no record
  is made.
\<close>

theorem download_cat_png:
  "http_requests (out (snd (process_input example_env example_options
       ''https://example.com/cat.png'' (initial_totals, example_world))))
     = [''/app/downloads/cat.png'']
   \<and> console_errors (out (snd (process_input example_env example_options
       ''https://example.com/cat.png'' (initial_totals, example_world))))
     = [''Error with path /app/downloads/cat.png: Only absolute URLs are supported'']
   \<and> fs (snd (process_input example_env example_options
       ''https://example.com/cat.png'' (initial_totals, example_world)))
       ''/app/downloads/cat.png'' = None
   \<and> processedStats (fst (process_input example_env example_options
       ''https://example.com/cat.png'' (initial_totals, example_world))) = []"
proof -
  let ?d = "download_input example_env ''/cat.png'' example_world"
  let ?R = "process_input example_env example_options
       ''https://example.com/cat.png'' (initial_totals, example_world)"
  have u: "URL_pathname example_env ''https://example.com/cat.png'' = Some ''/cat.png''"
    by (simp add: example_defs)
  have f: "fst ?d = ''/app/downloads/cat.png''"
    by (simp add: download_input_path example_defs io_defs Let_def suffix_to_prefix)
  have s: "fst (snd ?d) = Inl (Error ''Only absolute URLs are supported'')"
    and w: "fs (snd (snd ?d)) ''/app/downloads/cat.png'' = None"
    and c: "console_errors (out (snd (snd ?d))) = []"
    by (simp_all add: download_input_def run_defs console_errors_def)
  have R: "?R = (initial_totals,
      put (path_error ''/app/downloads/cat.png'' (Error ''Only absolute URLs are supported''))
        (snd (snd ?d)))"
    by (simp add: process_input_def u split_beta Let_def f s)
  have e: "http_requests [ConsoleError m] = []" "console_errors [ConsoleError m] = [m]" for m
    by (simp_all add: http_requests_def console_errors_def)
  have "http_requests (out (snd (snd ?d))) = http_requests (out example_world) @ [fst ?d]"
    by (rule download_requests_destination_path [THEN conjunct1])
  then have h: "http_requests (out (snd (snd ?d))) = [''/app/downloads/cat.png'']"
    by (simp only: f) (simp add: example_world_def http_requests_def)
  have "http_requests (out (snd ?R)) = [''/app/downloads/cat.png'']"
    by (simp only: R snd_conv) (simp add: h path_error_def e)
  moreover have "console_errors (out (snd ?R))
      = [''Error with path /app/downloads/cat.png: Only absolute URLs are supported'']"
    by (simp only: R snd_conv) (simp add: c path_error_def e)
  moreover have "fs (snd ?R) ''/app/downloads/cat.png'' = None"
    by (simp only: R snd_conv) (simp add: w put_def)
  moreover have "processedStats (fst ?R) = []"
    by (simp only: R fst_conv) (simp add: initial_totals_def)
  ultimately show ?thesis by (simp only: simp_thms)
qed

end
